theory Spec2Isabelle
  imports
    Complex_Main
    "HOL-Library.Char_ord"
    "HOL-Library.List_Lexorder"
    "HOL-Library.Product_Lexorder"
    "HOL-Library.Sublist"
begin

section \<open>Data model: tables of cells\<close>

text \<open>
  The dashboard (\<^verbatim>\<open>app.py\<close>) and the diagnostic script (\<^verbatim>\<open>scripts/check_data.py\<close>) work on
  pandas data frames. A frame is modelled row by row: it has its column names and an
  ordered list of rows, each row an association list from column name to cell. A cell is
  missing (\<open>NaN\<close>/\<open>NaT\<close>), a string, a number, or a timestamp (nanoseconds since the epoch,
  what a \<open>datetime64\<close> column holds after \<^verbatim>\<open>pd.to_datetime\<close>).
\<close>

datatype cell = Null | Str string | Num rat | Time int

type_synonym row = "(string \<times> cell) list"

record frame =
  columns :: "string list"
  rows :: "row list"

datatype error =
  KeyError | TypeError | ValueError | NameError | AttributeError | OSError | ReadError

definition cell_of :: "row \<Rightarrow> string \<Rightarrow> cell" where
  "cell_of r c = (case map_of r c of None \<Rightarrow> Null | Some v \<Rightarrow> v)"

definition column_cells :: "frame \<Rightarrow> string \<Rightarrow> cell list" where
  "column_cells df c = map (\<lambda>r. cell_of r c) (rows df)"

text \<open>
  The order pandas sorts a column by. Within one kind of value it is the order of that
  kind (numbers by value, strings by code point, timestamps by time); missing values come
  after everything else (\<^verbatim>\<open>na_position="last"\<close>). Numbers are placed before strings, as the
  group keys of a mixed column are.
\<close>

fun cell_key :: "cell \<Rightarrow> nat \<times> rat \<times> string \<times> int" where
  "cell_key (Num x) = (0, x, [], 0)"
| "cell_key (Str s) = (1, 0, s, 0)"
| "cell_key (Time t) = (2, 0, [], t)"
| "cell_key Null = (3, 0, [], 0)"

definition kind :: "cell \<Rightarrow> nat" where
  "kind c = fst (cell_key c)"

text \<open>
  Comparing two non-missing values of different kinds (a string with a number, say) raises
  \<open>TypeError\<close> in Python; a column can be ordered when that never happens in it.
\<close>

definition comparable :: "cell list \<Rightarrow> bool" where
  "comparable cs =
     (\<forall>a \<in> set cs. \<forall>b \<in> set cs. a \<noteq> Null \<and> b \<noteq> Null \<longrightarrow> kind a = kind b)"

text \<open>
  Elementwise \<^verbatim>\<open>>\<close> of pandas: false as soon as one side is missing.
\<close>

definition cell_gt :: "cell \<Rightarrow> cell \<Rightarrow> bool" where
  "cell_gt a b = (a \<noteq> Null \<and> b \<noteq> Null \<and> cell_key b < cell_key a)"

definition ordered_by :: "string \<Rightarrow> frame \<Rightarrow> bool" where
  "ordered_by c df = sorted (map cell_key (column_cells df c))"

section \<open>The per-country slice\<close>

text \<open>
  \<^verbatim>\<open>country_df = df[df["location"] == country]\<close> (app.py, line 39). Indexing a frame by a
  column it does not have raises \<open>KeyError\<close>; the comparison with a string is false on
  missing values.
\<close>

definition sliceByLocation :: "frame \<Rightarrow> string \<Rightarrow> error + frame" where
  "sliceByLocation df country =
     (if ''location'' \<in> set (columns df)
      then Inr (df\<lparr>rows := filter (\<lambda>r. cell_of r ''location'' = Str country) (rows df)\<rparr>)
      else Inl KeyError)"

section \<open>The latest row of every location\<close>


definition argsort_stable :: "cell list \<Rightarrow> nat list" where
  "argsort_stable ks = sort_key (\<lambda>i. cell_key (ks ! i)) [0..<length ks]"

definition valued_keys :: "frame \<Rightarrow> string \<Rightarrow> cell list" where
  "valued_keys df c = map (\<lambda>r. cell_of r c) (filter (\<lambda>r. cell_of r c \<noteq> Null) (rows df))"

definition sort_values :: "(cell list \<Rightarrow> nat list) \<Rightarrow> string \<Rightarrow> frame \<Rightarrow> error + frame" where
  "sort_values argsort c df =
     (if c \<notin> set (columns df) then Inl KeyError
      else if \<not> comparable (column_cells df c) then Inl TypeError
      else
        let valued = filter (\<lambda>r. cell_of r c \<noteq> Null) (rows df);
            missing = filter (\<lambda>r. cell_of r c = Null) (rows df)
        in Inr (df\<lparr>rows := map (\<lambda>i. valued ! i) (argsort (valued_keys df c)) @ missing\<rparr>))"

text \<open>
  \<^verbatim>\<open>.groupby(g).tail(1)\<close>: of the rows in their current order, the last one of every group;
  rows whose group key is missing belong to no group and are dropped.
\<close>

fun groupby_tail1 :: "string \<Rightarrow> row list \<Rightarrow> row list" where
  "groupby_tail1 g [] = []"
| "groupby_tail1 g (r # rs) =
     (if cell_of r g \<noteq> Null \<and> cell_of r g \<notin> set (map (\<lambda>r'. cell_of r' g) rs)
      then r # groupby_tail1 g rs
      else groupby_tail1 g rs)"

text \<open>
  \<^verbatim>\<open>latest = df.sort_values(date_col).groupby("location").tail(1)\<close> (app.py, line 207).
  \<open>date_col\<close> is \<open>None\<close> when the frame had no \<open>date\<close> column (line 160), and sorting by
  \<open>None\<close> raises \<open>KeyError\<close>.
\<close>

definition latestPerLocation ::
  "(cell list \<Rightarrow> nat list) \<Rightarrow> frame \<Rightarrow> string option \<Rightarrow> error + frame" where
  "latestPerLocation argsort df date_col =
     (case date_col of
        None \<Rightarrow> Inl KeyError
      | Some c \<Rightarrow>
          (case sort_values argsort c df of
             Inl e \<Rightarrow> Inl e
           | Inr s \<Rightarrow>
               if ''location'' \<in> set (columns s)
               then Inr (s\<lparr>rows := groupby_tail1 ''location'' (rows s)\<rparr>)
               else Inl KeyError))"

definition locations_of :: "row list \<Rightarrow> cell list" where
  "locations_of rs = map (\<lambda>r. cell_of r ''location'') rs"

section \<open>The sidebar filter\<close>

text \<open>
  \<^verbatim>\<open>df["location"].isin(locations)\<close>: exact membership of the cell in the chosen strings;
  a missing or non-string cell is in no selection.
\<close>

definition isin :: "cell \<Rightarrow> string list \<Rightarrow> bool" where
  "isin c locations = (case c of Str s \<Rightarrow> s \<in> set locations | _ \<Rightarrow> False)"

text \<open>
  \<^verbatim>\<open>(df[date_col] >= start) & (df[date_col] <= end)\<close> on one cell, \<open>start\<close> and \<open>end\<close> being
  timestamps: false on a missing date; comparing a string or a number with a timestamp
  raises \<open>TypeError\<close>.
\<close>

definition in_range :: "int \<Rightarrow> int \<Rightarrow> cell \<Rightarrow> bool" where
  "in_range start end c = (case c of Time t \<Rightarrow> start \<le> t \<and> t \<le> end | _ \<Rightarrow> False)"

definition datetime_cells :: "cell list \<Rightarrow> bool" where
  "datetime_cells cs = list_all (\<lambda>c. case c of Null \<Rightarrow> True | Time t \<Rightarrow> True | _ \<Rightarrow> False) cs"

text \<open>
  app.py, lines 170 to 177:
  \<^verbatim>\<open>
  df = df[df["location"].isin(locations)]
  if date_col:
      min_date, max_date = df[date_col].min(), df[date_col].max()
      date_range = st.date_input("Date range", value=(min_date, max_date))
      if isinstance(date_range, tuple) and len(date_range) == 2:
          start, end = pd.to_datetime(date_range[0]), pd.to_datetime(date_range[1])
          df = df[(df[date_col] >= start) & (df[date_col] <= end)]
  \<close>
  \<open>locations\<close> and \<open>date_range\<close> come from the widgets; \<open>date_range\<close> is \<open>None\<close> when the
  date widget does not return a pair. The code has no check on \<open>locations\<close>.
\<close>

definition filterBySelection ::
  "frame \<Rightarrow> string option \<Rightarrow> string list \<Rightarrow> (int \<times> int) option \<Rightarrow> error + frame" where
  "filterBySelection df date_col locations date_range =
     (if ''location'' \<notin> set (columns df) then Inl KeyError
      else
        let df1 = df\<lparr>rows := filter (\<lambda>r. isin (cell_of r ''location'') locations) (rows df)\<rparr>
        in case date_col of
             None \<Rightarrow> Inr df1
           | Some d \<Rightarrow>
               if d \<notin> set (columns df1) then Inl KeyError
               else if \<not> comparable (column_cells df1 d) then Inl TypeError
               else (case date_range of
                       None \<Rightarrow> Inr df1
                     | Some (start, end) \<Rightarrow>
                         if \<not> datetime_cells (column_cells df1 d) then Inl TypeError
                         else Inr (df1\<lparr>rows :=
                                filter (\<lambda>r. in_range start end (cell_of r d)) (rows df1)\<rparr>)))"

section \<open>Top countries by a metric\<close>

text \<open>
  \<^verbatim>\<open>Series.max()\<close>: the largest value, missing values skipped; missing when there is none.
\<close>

definition cell_max :: "cell \<Rightarrow> cell \<Rightarrow> cell" where
  "cell_max a b =
     (if a = Null then b else if b = Null then a
      else if cell_key a \<le> cell_key b then b else a)"

definition col_max :: "cell list \<Rightarrow> cell" where
  "col_max cs = fold cell_max cs Null"

text \<open>
  \<^verbatim>\<open>latest_date = df["date"].max()\<close> and \<^verbatim>\<open>latest_df = df[df["date"] == latest_date]\<close>
  (app.py, lines 120 and 121). The comparison is false on a missing date, also when
  \<open>latest_date\<close> itself is missing.
\<close>

definition latest_date :: "frame \<Rightarrow> cell" where
  "latest_date df = col_max (column_cells df ''date'')"

definition latest_df :: "frame \<Rightarrow> row list" where
  "latest_df df =
     filter (\<lambda>r. cell_of r ''date'' \<noteq> Null \<and> cell_of r ''date'' = latest_date df) (rows df)"

text \<open>
  \<^verbatim>\<open>.groupby(g)[m].max()\<close>: one entry per group key, keys in ascending order, rows with a
  missing key in no group; the value is the largest metric of the group.
\<close>

definition group_keys :: "string \<Rightarrow> row list \<Rightarrow> cell list" where
  "group_keys g rs =
     sort_key cell_key (remdups (filter (\<lambda>c. c \<noteq> Null) (map (\<lambda>r. cell_of r g) rs)))"

definition groupby_max :: "string \<Rightarrow> string \<Rightarrow> row list \<Rightarrow> (cell \<times> cell) list" where
  "groupby_max g m rs =
     map (\<lambda>k. (k, col_max (map (\<lambda>r. cell_of r m) (filter (\<lambda>r. cell_of r g = k) rs))))
       (group_keys g rs)"

text \<open>
  \<^verbatim>\<open>.nlargest(n)\<close> (with the default \<^verbatim>\<open>keep="first"\<close>): the entries in descending order of
  value, entries of equal value in their order of appearance, entries without a value
  after all others; the first \<open>n\<close> of them, none when \<open>n\<close> is 0. It is defined for numeric
  and datetime columns only and raises \<open>TypeError\<close> on a column of strings.
\<close>

definition nlargest :: "nat \<Rightarrow> (cell \<times> cell) list \<Rightarrow> (cell \<times> cell) list" where
  "nlargest n s =
     take n (rev (sort_key (\<lambda>p. cell_key (snd p)) (rev (filter (\<lambda>p. snd p \<noteq> Null) s)))
             @ filter (\<lambda>p. snd p = Null) s)"

definition numeric_cells :: "cell list \<Rightarrow> bool" where
  "numeric_cells cs = list_all (\<lambda>c. case c of Null \<Rightarrow> True | Num x \<Rightarrow> True | _ \<Rightarrow> False) cs"

definition nlargest_dtype :: "cell list \<Rightarrow> bool" where
  "nlargest_dtype cs = (numeric_cells cs \<or> datetime_cells cs)"

text \<open>
  app.py, lines 120 to 122, with the metric column and \<open>n\<close> as parameters (the code has
  \<open>total_cases\<close> and 10):
  \<^verbatim>\<open>
  latest_date = df["date"].max()
  latest_df = df[df["date"] == latest_date]
  top10 = latest_df.groupby("location")[m].max().nlargest(n).reset_index()
  \<close>
  \<open>reset_index\<close> turns the group keys into the column \<open>location\<close> and raises \<open>ValueError\<close>
  when the value column has that name already.
\<close>

definition topNByMetric :: "frame \<Rightarrow> string \<Rightarrow> nat \<Rightarrow> error + frame" where
  "topNByMetric df m n =
     (if ''date'' \<notin> set (columns df) then Inl KeyError
      else if \<not> comparable (column_cells df ''date'') then Inl TypeError
      else if ''location'' \<notin> set (columns df) then Inl KeyError
      else if m \<notin> set (columns df) then Inl KeyError
      else if \<not> nlargest_dtype (column_cells df m) then Inl TypeError
      else if m = ''location'' then Inl ValueError
      else Inr \<lparr>columns = [''location'', m],
                rows = map (\<lambda>(k, v). [(''location'', k), (m, v)])
                         (nlargest n (groupby_max ''location'' m (latest_df df)))\<rparr>)"

definition top10 :: "frame \<Rightarrow> error + frame" where
  "top10 df = topNByMetric df ''total_cases'' 10"

text \<open>Descending order of values, missing values last.\<close>

definition cell_ge :: "cell \<Rightarrow> cell \<Rightarrow> bool" where
  "cell_ge a b = (b = Null \<or> (a \<noteq> Null \<and> cell_key b \<le> cell_key a))"

section \<open>Loading\<close>

text \<open>
  \<^verbatim>\<open>pd.to_datetime(col, errors="coerce")\<close> on one cell. The date parser of pandas is a
  parameter \<open>parse\<close>: it gives the timestamp of a string or number it can read and \<open>None\<close>
  otherwise. A missing value stays missing, a timestamp stays what it is, and a value the
  parser cannot read becomes missing instead of raising.
\<close>

definition to_datetime :: "(cell \<Rightarrow> int option) \<Rightarrow> cell \<Rightarrow> cell" where
  "to_datetime parse c =
     (case c of
        Null \<Rightarrow> Null
      | Time t \<Rightarrow> Time t
      | _ \<Rightarrow> (case parse c of Some t \<Rightarrow> Time t | None \<Rightarrow> Null))"

text \<open>\<^verbatim>\<open>df[c] = f(df[c])\<close> on one row: the cell of column \<open>c\<close> is replaced, the others kept.\<close>

definition set_cell :: "string \<Rightarrow> (cell \<Rightarrow> cell) \<Rightarrow> row \<Rightarrow> row" where
  "set_cell c f r = map (\<lambda>(k, v). if k = c then (k, f v) else (k, v)) r"

text \<open>
  \<^verbatim>\<open>
  if "date" in df.columns:
      df["date"] = pd.to_datetime(df["date"], errors="coerce")
  \<close>
  (app.py, lines 18-19, 24-25 and 154-155).
\<close>

definition coerce_dates :: "(cell \<Rightarrow> int option) \<Rightarrow> frame \<Rightarrow> frame" where
  "coerce_dates parse df =
     (if ''date'' \<in> set (columns df)
      then df\<lparr>rows := map (set_cell ''date'' (to_datetime parse)) (rows df)\<rparr>
      else df)"

text \<open>
  The sidebar block that loads the data (app.py, lines 11 to 27). What \<^verbatim>\<open>pd.read_csv\<close>
  gives for the chosen file is an input: a table, or the error it raised. With the
  upload source and nothing uploaded yet the script stops (\<^verbatim>\<open>st.stop()\<close>).
\<close>

datatype source = LocalFile "error + frame" | Upload "(error + frame) option"

datatype loaded = Stopped | Failed error | Ready frame

fun load_data :: "(cell \<Rightarrow> int option) \<Rightarrow> source \<Rightarrow> loaded" where
  "load_data parse (LocalFile csv) =
     (case csv of Inl e \<Rightarrow> Failed e | Inr df \<Rightarrow> Ready (coerce_dates parse df))"
| "load_data parse (Upload None) = Stopped"
| "load_data parse (Upload (Some csv)) =
     (case csv of Inl e \<Rightarrow> Failed e | Inr df \<Rightarrow> Ready (coerce_dates parse df))"

section \<open>The script as operations on its variables\<close>

text \<open>
  The variables of app.py that hold tables: \<open>df\<close> (the dataset), \<open>date_col\<close>, and the
  derived tables \<open>country_df\<close>, \<open>top10\<close>, the statistics written on line 151 and \<open>latest\<close>
  (the fields below, with the prefix \<open>v_\<close>). A variable that has not been assigned yet is
  \<open>None\<close>; reading it raises \<open>NameError\<close>.
\<close>

record session =
  v_df :: frame
  v_date_col :: "string option"
  v_country_df :: "frame option"
  v_top10 :: "frame option"
  v_stats :: "(string \<times> nat) list option"
  v_latest :: "frame option"

text \<open>
  Of \<^verbatim>\<open>country_df.describe(include='all')\<close> the model keeps the \<open>count\<close> line: the number
  of values that are not missing, per column.
\<close>

definition describe_count :: "frame \<Rightarrow> (string \<times> nat) list" where
  "describe_count t =
     map (\<lambda>c. (c, length (filter (\<lambda>v. v \<noteq> Null) (column_cells t c)))) (columns t)"

text \<open>
  The operations of the script, in the order of the file: the country slice (line 39),
  the top-10 table (lines 120-122), the summary statistics (line 151), the second date
  coercion (lines 154-155), the sidebar filter with its \<open>date_col\<close> (lines 160-177), and
  the map table (line 207). The date parser of pandas and the sort kernel of numpy are
  the parameters \<open>parse\<close> and \<open>argsort\<close>.
\<close>

datatype op =
    Slice string
  | TopTen
  | Describe
  | EnsureDates
  | Filter "string list" "(int \<times> int) option"
  | LatestMap

fun exec ::
  "(cell \<Rightarrow> int option) \<Rightarrow> (cell list \<Rightarrow> nat list) \<Rightarrow> op \<Rightarrow> session \<Rightarrow> error + session" where
  "exec parse argsort (Slice country) s =
     (case sliceByLocation (v_df s) country of
        Inl e \<Rightarrow> Inl e
      | Inr t \<Rightarrow> Inr (s\<lparr>v_country_df := Some t\<rparr>))"
| "exec parse argsort TopTen s =
     (case top10 (v_df s) of
        Inl e \<Rightarrow> Inl e
      | Inr t \<Rightarrow> Inr (s\<lparr>v_top10 := Some t\<rparr>))"
| "exec parse argsort Describe s =
     (case v_country_df s of
        None \<Rightarrow> Inl NameError
      | Some t \<Rightarrow> Inr (s\<lparr>v_stats := Some (describe_count t)\<rparr>))"
| "exec parse argsort EnsureDates s = Inr (s\<lparr>v_df := coerce_dates parse (v_df s)\<rparr>)"
| "exec parse argsort (Filter locations date_range) s =
     (let dc = (if ''date'' \<in> set (columns (v_df s)) then Some ''date'' else None)
      in case filterBySelection (v_df s) dc locations date_range of
           Inl e \<Rightarrow> Inl e
         | Inr t \<Rightarrow> Inr (s\<lparr>v_df := t, v_date_col := dc\<rparr>))"
| "exec parse argsort LatestMap s =
     (case latestPerLocation argsort (v_df s) (v_date_col s) of
        Inl e \<Rightarrow> Inl e
      | Inr t \<Rightarrow> Inr (s\<lparr>v_latest := Some t\<rparr>))"

text \<open>
  The second loading block (app.py, lines 189 to 205) assigns \<open>df\<close> again from
  \<^verbatim>\<open>pd.read_csv\<close>, without the date coercion of the first block; a failure to read or a
  missing upload stops the script.
\<close>

definition reload :: "(error + frame) option \<Rightarrow> session \<Rightarrow> session option" where
  "reload csv s =
     (case csv of
        None \<Rightarrow> None
      | Some (Inl e) \<Rightarrow> None
      | Some (Inr t) \<Rightarrow> Some (s\<lparr>v_df := t\<rparr>))"

definition start :: "frame \<Rightarrow> session" where
  "start t =
     \<lparr>v_df = t, v_date_col = None, v_country_df = None, v_top10 = None, v_stats = None,
      v_latest = None\<rparr>"

section \<open>The diagnostic script\<close>











text \<open>
  The table the script reads. \<^verbatim>\<open>pd.read_csv\<close> gives string column labels; \<^verbatim>\<open>pd.read_excel\<close>
  gives a number as label where the header cell of the sheet holds a number.
\<close>

datatype label = Text string | Number rat


text \<open>The lines the script prints, one constructor for each \<^verbatim>\<open>print\<close> of the file.\<close>

datatype line =
    FileNotFoundLine string
  | UnsupportedLine string
  | LoadedLine string
  | ShapeLine nat nat
  | ColumnsHeader
  | ColumnLine nat label
  | DateColumnsLine "label list"
  | DeathColumnsLine "label list"
  | LocationColumnsLine "label list"
  | SampleHeader
  | SampleRows "cell list list"



fun prints :: "(nat \<Rightarrow> line \<Rightarrow> bool) \<Rightarrow> line list \<Rightarrow> line list \<Rightarrow> line list \<times> error option" where
  "prints ok [] out = (out, None)"
| "prints ok (l # ls) out =
     (if ok (length out) l then prints ok ls (out @ [l]) else (out, Some OSError))"










section \<open>Example tables\<close>

definition mk_row :: "string \<Rightarrow> cell \<Rightarrow> rat \<Rightarrow> row" where
  "mk_row l d v = [(''location'', Str l), (''date'', d), (''total_cases'', Num v)]"

definition unsorted_df :: frame where
  "unsorted_df =
     \<lparr>columns = [''location'', ''date'', ''total_cases''],
      rows = [mk_row ''A'' (Time 2) 20, mk_row ''B'' (Time 1) 5, mk_row ''A'' (Time 1) 10]\<rparr>"

definition sorted_df :: frame where
  "sorted_df =
     \<lparr>columns = [''location'', ''date'', ''total_cases''],
      rows = [mk_row ''A'' (Time 1) 10, mk_row ''B'' (Time 1) 5, mk_row ''A'' (Time 2) 20,
              mk_row ''A'' Null 30]\<rparr>"




definition tie_df :: frame where
  "tie_df =
     \<lparr>columns = [''location'', ''date'', ''total_cases''],
      rows = [mk_row ''A'' (Time 1) 10, mk_row ''A'' (Time 2) 20, mk_row ''B'' (Time 1) 5,
              mk_row ''A'' (Time 2) 30]\<rparr>"

definition null_df :: frame where
  "null_df =
     \<lparr>columns = [''location'', ''date'', ''total_cases''],
      rows = [mk_row ''A'' Null 1, mk_row ''A'' (Time 5) 2, mk_row ''A'' Null 3,
              mk_row ''B'' (Time 1) 4]\<rparr>"

definition top_df :: frame where
  "top_df =
     \<lparr>columns = [''location'', ''date'', ''total_cases''],
      rows = [mk_row ''A'' (Time 1) 100, mk_row ''A'' (Time 2) 20, mk_row ''B'' (Time 2) 50,
              [(''location'', Str ''C''), (''date'', Time 2), (''total_cases'', Null)],
              mk_row ''A'' (Time 2) 30, mk_row ''D'' (Time 2) 50, mk_row ''E'' Null 500,
              [(''location'', Null), (''date'', Time 2), (''total_cases'', Num 900)]]\<rparr>"

definition parse_iso :: "cell \<Rightarrow> int option" where
  "parse_iso c = (if c = Str ''1970-01-01'' then Some 0 else None)"

definition raw_df :: frame where
  "raw_df =
     \<lparr>columns = [''location'', ''date''],
      rows = [[(''location'', Str ''A''), (''date'', Str ''1970-01-01'')],
              [(''location'', Str ''B''), (''date'', Str ''not a date'')],
              [(''location'', Str ''C''), (''date'', Null)]]\<rparr>"

definition no_parse :: "cell \<Rightarrow> int option" where
  "no_parse c = None"






section \<open>Properties of the slice\<close>

lemma sorted_map_filter:
  "sorted (map f xs) \<Longrightarrow> sorted (map f (filter P xs))"
  by (induction xs) auto

text \<open>
  C5. For every dataset with a \<open>location\<close> column and every location string that does not
  occur in that column, \<open>sliceByLocation\<close> returns a table (it does not fail) and the table
  has no rows.
\<close>

theorem sliceByLocation_absent:
  assumes "''location'' \<in> set (columns df)"
    and "Str country \<notin> set (column_cells df ''location'')"
  shows "\<exists>out. sliceByLocation df country = Inr out \<and> length (rows out) = 0
           \<and> columns out = columns df"
proof -
  have "filter (\<lambda>r. cell_of r ''location'' = Str country) (rows df) = []"
    using assms(2) by (force simp: column_cells_def filter_empty_conv)
  with assms(1) show ?thesis
    by (simp add: sliceByLocation_def)
qed

theorem sliceByLocation_absent_witness:
  "''location'' \<in> set (columns unsorted_df)
   \<and> Str ''C'' \<notin> set (column_cells unsorted_df ''location'')
   \<and> sliceByLocation unsorted_df ''C'' = Inr (unsorted_df\<lparr>rows := []\<rparr>)"
proof -
  have a: "''location'' \<in> set (columns unsorted_df)"
    by (simp add: unsorted_df_def)
  have b: "Str ''C'' \<notin> set (column_cells unsorted_df ''location'')"
    by (simp add: unsorted_df_def column_cells_def cell_of_def mk_row_def)
  from sliceByLocation_absent [OF a b]
  obtain out where "sliceByLocation unsorted_df ''C'' = Inr out" and "length (rows out) = 0"
    by blast
  moreover have "sliceByLocation unsorted_df ''C'' = Inr (unsorted_df\<lparr>rows := []\<rparr>)"
    by (simp add: sliceByLocation_def unsorted_df_def cell_of_def mk_row_def)
  ultimately show ?thesis using a b by simp
qed

text \<open>
  C4, as the code has it. The slice is taken by a filter and never sorted: the rows of the
  chosen location come out in their input order. The claim that the slice is ascending by
  date fails on a table whose rows are not: here the two rows of location \<open>A\<close> come out
  with dates 2, 1.
\<close>

theorem sliceByLocation_not_sorted_counterexample:
  "sliceByLocation unsorted_df ''A'' =
     Inr (unsorted_df\<lparr>rows := [mk_row ''A'' (Time 2) 20, mk_row ''A'' (Time 1) 10]\<rparr>)
   \<and> \<not> ordered_by ''date''
         (unsorted_df\<lparr>rows := [mk_row ''A'' (Time 2) 20, mk_row ''A'' (Time 1) 10]\<rparr>)"
  by (simp add: sliceByLocation_def unsorted_df_def cell_of_def mk_row_def ordered_by_def
      column_cells_def)

text \<open>
  C4, amended. For every dataset with a \<open>location\<close> column, \<open>sliceByLocation\<close> returns
  exactly the rows whose location is the chosen one, in their input order: the input
  with the other rows removed (so a subsequence of the input, each row of that location
  as often as the input has it, and no other row). No sorting is applied; the slice is
  ascending by date with missing dates last whenever the input is.
\<close>

theorem sliceByLocation_keeps_order:
  assumes "''location'' \<in> set (columns df)"
  shows "\<exists>out. sliceByLocation df country = Inr out
           \<and> columns out = columns df
           \<and> rows out = filter (\<lambda>r. cell_of r ''location'' = Str country) (rows df)
           \<and> subseq (rows out) (rows df)
           \<and> set (rows out) = {r \<in> set (rows df). cell_of r ''location'' = Str country}
           \<and> (ordered_by ''date'' df \<longrightarrow> ordered_by ''date'' out)"
proof -
  let ?P = "\<lambda>r. cell_of r ''location'' = Str country"
  have s: "sliceByLocation df country = Inr (df\<lparr>rows := filter ?P (rows df)\<rparr>)"
    using assms by (simp add: sliceByLocation_def)
  have o: "ordered_by ''date'' df \<longrightarrow> ordered_by ''date'' (df\<lparr>rows := filter ?P (rows df)\<rparr>)"
    using sorted_map_filter [of "\<lambda>r. cell_key (cell_of r ''date'')" "rows df" ?P]
    by (simp add: ordered_by_def column_cells_def comp_def)
  show ?thesis
    using s o by auto
qed

theorem sliceByLocation_keeps_order_witness:
  "''location'' \<in> set (columns sorted_df)
   \<and> ordered_by ''date'' sorted_df
   \<and> sliceByLocation sorted_df ''A'' =
       Inr (sorted_df\<lparr>rows := [mk_row ''A'' (Time 1) 10, mk_row ''A'' (Time 2) 20,
                                mk_row ''A'' Null 30]\<rparr>)
   \<and> ordered_by ''date''
       (sorted_df\<lparr>rows := [mk_row ''A'' (Time 1) 10, mk_row ''A'' (Time 2) 20,
                           mk_row ''A'' Null 30]\<rparr>)"
proof -
  let ?o = "sorted_df\<lparr>rows := [mk_row ''A'' (Time 1) 10, mk_row ''A'' (Time 2) 20,
                               mk_row ''A'' Null 30]\<rparr>"
  have a: "''location'' \<in> set (columns sorted_df)"
    by (simp add: sorted_df_def)
  have b: "ordered_by ''date'' sorted_df"
    by (simp add: ordered_by_def column_cells_def sorted_df_def cell_of_def mk_row_def)
  have e: "sliceByLocation sorted_df ''A'' = Inr ?o"
    by (simp add: sliceByLocation_def sorted_df_def cell_of_def mk_row_def)
  from sliceByLocation_keeps_order [OF a, of "''A''"]
  obtain out where o: "sliceByLocation sorted_df ''A'' = Inr out"
    and k: "ordered_by ''date'' sorted_df \<longrightarrow> ordered_by ''date'' out"
    by blast
  from o e have "out = ?o" by simp
  with k b have "ordered_by ''date'' ?o" by simp
  with a b e show ?thesis by (intro conjI)
qed

section \<open>Properties of the latest row per location\<close>

lemma cell_key_inj: "cell_key a = cell_key b \<longleftrightarrow> a = b"
  by (cases a; cases b) auto


lemma cell_key_Null_le: "cell_key Null \<le> cell_key a \<Longrightarrow> a = Null"
  by (cases a) (auto simp: less_eq_prod_def)



lemma groupby_tail1_subset: "set (groupby_tail1 g xs) \<subseteq> set xs"
  by (induction xs) auto

lemma groupby_tail1_keys:
  "set (map (\<lambda>r. cell_of r g) (groupby_tail1 g xs)) = set (map (\<lambda>r. cell_of r g) xs) - {Null}"
  by (induction xs) auto

lemma groupby_tail1_distinct: "distinct (map (\<lambda>r. cell_of r g) (groupby_tail1 g xs))"
proof (induction xs)
  case Nil
  then show ?case by simp
next
  case (Cons r rs)
  have "cell_of r g \<notin> set (map (\<lambda>r'. cell_of r' g) rs)
        \<Longrightarrow> cell_of r g \<notin> set (map (\<lambda>r'. cell_of r' g) (groupby_tail1 g rs))"
    using groupby_tail1_subset [of g rs] by auto
  with Cons show ?case by auto
qed

lemma groupby_tail1_last:
  "r \<in> set (groupby_tail1 g xs) \<Longrightarrow> r = last (filter (\<lambda>r'. cell_of r' g = cell_of r g) xs)"
proof (induction xs)
  case Nil
  then show ?case by simp
next
  case (Cons x xs)
  show ?case
  proof (cases "r \<in> set (groupby_tail1 g xs)")
    case True
    then have "r \<in> set xs" using groupby_tail1_subset by blast
    then have "filter (\<lambda>r'. cell_of r' g = cell_of r g) xs \<noteq> []"
      by (auto simp: filter_empty_conv)
    with Cons.IH [OF True] show ?thesis by simp
  next
    case False
    with Cons.prems have rx: "r = x" and fresh: "cell_of x g \<notin> set (map (\<lambda>r'. cell_of r' g) xs)"
      by (auto split: if_splits)
    then have "\<forall>y \<in> set xs. cell_of y g \<noteq> cell_of r g"
      by (metis image_eqI set_map)
    then have "filter (\<lambda>r'. cell_of r' g = cell_of r g) xs = []"
      by (simp add: filter_empty_conv)
    with rx show ?thesis by simp
  qed
qed

lemma filter_unique:
  "distinct (map f xs) \<Longrightarrow> r \<in> set xs \<Longrightarrow> filter (\<lambda>x. f x = f r) xs = [r]"
  by (induction xs) (auto simp: filter_empty_conv image_iff)











lemma last_group_missing:
  assumes "r = last (filter G (S @ filter (\<lambda>x. cell_of x c = Null) xs))"
    and "filter G (filter (\<lambda>x. cell_of x c = Null) xs) \<noteq> []"
  shows "r = last (filter (\<lambda>x. G x \<and> cell_of x c = Null) xs)"
proof -
  have "filter G (filter (\<lambda>x. cell_of x c = Null) xs)
          = filter (\<lambda>x. G x \<and> cell_of x c = Null) xs"
    by (simp add: conj_commute)
  with assms show ?thesis by simp
qed


lemma latest_missing_wins:
  assumes r0: "r0 \<in> set xs" and n: "cell_of r0 c = Null"
    and l: "cell_of r0 g = l" and ln: "l \<noteq> Null"
  shows "filter (\<lambda>r. cell_of r g = l) (groupby_tail1 g (S @ filter (\<lambda>x. cell_of x c = Null) xs))
           = [last (filter (\<lambda>x. cell_of x g = l \<and> cell_of x c = Null) xs)]"
proof -
  let ?M = "filter (\<lambda>x. cell_of x c = Null) xs"
  let ?F = "S @ ?M"
  let ?t = "groupby_tail1 g ?F"
  have m: "r0 \<in> set ?M" using r0 n by simp
  then have "cell_of r0 g \<in> set (map (\<lambda>r. cell_of r g) ?F)"
    by (simp only: set_map set_append) blast
  then have "l \<in> set (map (\<lambda>r. cell_of r g) ?F) - {Null}"
    using l ln by simp
  then have "l \<in> set (map (\<lambda>r. cell_of r g) ?t)"
    using groupby_tail1_keys [of g ?F] by simp
  then obtain r where r: "r \<in> set ?t" and rl: "cell_of r g = l"
    by auto
  have "filter (\<lambda>x. cell_of x g = cell_of r g) ?t = [r]"
    using groupby_tail1_distinct r by (rule filter_unique)
  then have u: "filter (\<lambda>x. cell_of x g = l) ?t = [r]"
    using rl by simp
  have "r = last (filter (\<lambda>x. cell_of x g = cell_of r g) ?F)"
    using r by (rule groupby_tail1_last)
  then have e: "r = last (filter (\<lambda>x. cell_of x g = l) ?F)"
    unfolding rl .
  have "filter (\<lambda>x. cell_of x g = l) ?M \<noteq> []"
    using m l by (auto simp: filter_empty_conv)
  with e have "r = last (filter (\<lambda>x. cell_of x g = l \<and> cell_of x c = Null) xs)"
    by (rule last_group_missing)
  with u show ?thesis by simp
qed



lemma latestPerLocation_eq:
  assumes "''location'' \<in> set (columns df)" and "d \<in> set (columns df)"
    and "comparable (column_cells df d)"
  shows "latestPerLocation argsort df (Some d) =
           Inr (df\<lparr>rows := groupby_tail1 ''location''
                  (map (\<lambda>i. filter (\<lambda>r. cell_of r d \<noteq> Null) (rows df) ! i)
                     (argsort (valued_keys df d))
                   @ filter (\<lambda>r. cell_of r d = Null) (rows df))\<rparr>)"
  using assms by (simp add: latestPerLocation_def sort_values_def Let_def)






text \<open>
  C10. In the latest-row-per-location computation a row without a date counts as the
  latest of its group: whenever some location has a row whose date is missing, the row
  returned for that location is the last such row of the group in input order, whatever
  dates the other rows of the group carry (and in whatever order the sort kernel puts the
  dated rows).
\<close>

theorem latestPerLocation_null_date_wins:
  assumes "''location'' \<in> set (columns df)" and "d \<in> set (columns df)"
    and "comparable (column_cells df d)"
    and "r0 \<in> set (rows df)" and "cell_of r0 ''location'' = l" and "l \<noteq> Null"
    and "cell_of r0 d = Null"
  shows "\<exists>out. latestPerLocation argsort df (Some d) = Inr out
           \<and> filter (\<lambda>r. cell_of r ''location'' = l) (rows out) =
               [last (filter (\<lambda>r. cell_of r ''location'' = l \<and> cell_of r d = Null) (rows df))]"
proof -
  let ?S = "map (\<lambda>i. filter (\<lambda>r. cell_of r d \<noteq> Null) (rows df) ! i) (argsort (valued_keys df d))"
  let ?t = "groupby_tail1 ''location'' (?S @ filter (\<lambda>r. cell_of r d = Null) (rows df))"
  have e: "latestPerLocation argsort df (Some d) = Inr (df\<lparr>rows := ?t\<rparr>)"
    using assms(1-3) by (rule latestPerLocation_eq)
  have "filter (\<lambda>r. cell_of r ''location'' = l) ?t =
          [last (filter (\<lambda>r. cell_of r ''location'' = l \<and> cell_of r d = Null) (rows df))]"
    using assms(4,7,5,6) by (rule latest_missing_wins)
  with e show ?thesis by simp
qed

theorem latestPerLocation_null_date_wins_witness:
  "''location'' \<in> set (columns null_df) \<and> ''date'' \<in> set (columns null_df)
   \<and> comparable (column_cells null_df ''date'')
   \<and> mk_row ''A'' Null 1 \<in> set (rows null_df)
   \<and> cell_of (mk_row ''A'' Null 1) ''location'' = Str ''A'' \<and> Str ''A'' \<noteq> Null
   \<and> cell_of (mk_row ''A'' Null 1) ''date'' = Null
   \<and> latestPerLocation argsort_stable null_df (Some ''date'') =
       Inr (null_df\<lparr>rows := [mk_row ''B'' (Time 1) 4, mk_row ''A'' Null 3]\<rparr>)
   \<and> last (filter (\<lambda>r. cell_of r ''location'' = Str ''A'' \<and> cell_of r ''date'' = Null)
         (rows null_df)) = mk_row ''A'' Null 3"
proof -
  have a: "''location'' \<in> set (columns null_df)" and b: "''date'' \<in> set (columns null_df)"
    by (simp_all add: null_df_def)
  have c: "comparable (column_cells null_df ''date'')"
    by (simp add: null_df_def comparable_def column_cells_def cell_of_def mk_row_def kind_def)
  have m: "mk_row ''A'' Null 1 \<in> set (rows null_df)"
    by (simp add: null_df_def)
  have l: "cell_of (mk_row ''A'' Null 1) ''location'' = Str ''A''"
    and n: "cell_of (mk_row ''A'' Null 1) ''date'' = Null"
    by (simp_all add: cell_of_def mk_row_def)
  have s: "Str ''A'' \<noteq> Null" by simp
  have v: "argsort_stable (valued_keys null_df ''date'') = [1, 0]"
    by (simp add: argsort_stable_def valued_keys_def null_df_def cell_of_def mk_row_def upt_rec)
  have e: "latestPerLocation argsort_stable null_df (Some ''date'') =
       Inr (null_df\<lparr>rows := [mk_row ''B'' (Time 1) 4, mk_row ''A'' Null 3]\<rparr>)"
    unfolding latestPerLocation_eq [OF a b c] v
    by (simp add: null_df_def cell_of_def mk_row_def)
  have f: "filter (\<lambda>r. cell_of r ''location'' = Str ''A'')
             [mk_row ''B'' (Time 1) 4, mk_row ''A'' Null 3] = [mk_row ''A'' Null 3]"
    by (simp add: cell_of_def mk_row_def)
  from latestPerLocation_null_date_wins [OF a b c m l s n, of argsort_stable] e f
  have "last (filter (\<lambda>r. cell_of r ''location'' = Str ''A'' \<and> cell_of r ''date'' = Null)
         (rows null_df)) = mk_row ''A'' Null 3"
    by simp
  with a b c m l s n e show ?thesis by simp
qed

section \<open>Properties of the sidebar filter\<close>

text \<open>
  C2, as the code has it. With no location chosen the filter does not fail: every row is
  masked out and the empty table is returned. The code has no \<open>EmptySelection\<close> error.
\<close>

theorem filterBySelection_empty_counterexample:
  "filterBySelection unsorted_df (Some ''date'') [] None = Inr (unsorted_df\<lparr>rows := []\<rparr>)"
  by (simp add: filterBySelection_def unsorted_df_def isin_def cell_of_def mk_row_def
      comparable_def column_cells_def)

lemma isin_empty: "isin c [] = False"
  by (cases c) (simp_all add: isin_def)

text \<open>
  C2, amended. For every dataset with a \<open>location\<close> column (and with the date column the
  filter is given, if any), \<open>filterBySelection\<close> called with an empty set of locations
  returns the table with the same columns and no rows, for every date range; it does not
  fail.
\<close>

theorem filterBySelection_empty:
  assumes "''location'' \<in> set (columns df)"
    and "date_col = None \<or> (\<exists>d. date_col = Some d \<and> d \<in> set (columns df))"
  shows "filterBySelection df date_col [] date_range = Inr (df\<lparr>rows := []\<rparr>)"
  using assms
  by (auto simp: filterBySelection_def isin_empty comparable_def column_cells_def
      datetime_cells_def Let_def split: option.splits prod.splits)

theorem filterBySelection_empty_witness:
  "''location'' \<in> set (columns tie_df) \<and> ''date'' \<in> set (columns tie_df)
   \<and> filterBySelection tie_df (Some ''date'') [] (Some (1, 2)) = Inr (tie_df\<lparr>rows := []\<rparr>)"
proof -
  have a: "''location'' \<in> set (columns tie_df)" and b: "''date'' \<in> set (columns tie_df)"
    by (simp_all add: tie_df_def)
  from b have c: "Some ''date'' = None \<or> (\<exists>d. Some ''date'' = Some d \<and> d \<in> set (columns tie_df))"
    by simp
  from filterBySelection_empty [OF a c, of "Some (1, 2)"] a b show ?thesis by simp
qed

section \<open>Properties of the top-N table\<close>

lemma fold_cell_max:
  "(fold cell_max cs a = a \<or> fold cell_max cs a \<in> set cs)
   \<and> (\<forall>c \<in> insert a (set cs). c \<noteq> Null \<longrightarrow>
         fold cell_max cs a \<noteq> Null \<and> cell_key c \<le> cell_key (fold cell_max cs a))"
proof (induction cs arbitrary: a)
  case Nil
  then show ?case by simp
next
  case (Cons x xs)
  let ?a = "cell_max x a"
  let ?R = "fold cell_max xs ?a"
  have m: "?a = a \<or> ?a = x"
    by (simp add: cell_max_def)
  have u: "c \<noteq> Null \<Longrightarrow> c = a \<or> c = x \<Longrightarrow> ?a \<noteq> Null \<and> cell_key c \<le> cell_key ?a" for c
    by (auto simp: cell_max_def)
  from Cons.IH [of ?a]
  have p: "?R = ?a \<or> ?R \<in> set xs"
    and q: "\<And>c. c \<in> insert ?a (set xs) \<Longrightarrow> c \<noteq> Null
              \<Longrightarrow> ?R \<noteq> Null \<and> cell_key c \<le> cell_key ?R"
    by blast+
  have 1: "?R = a \<or> ?R \<in> set (x # xs)"
    using p m by auto
  have 2: "?R \<noteq> Null \<and> cell_key c \<le> cell_key ?R"
    if c: "c \<in> insert a (set (x # xs))" and n: "c \<noteq> Null" for c
  proof (cases "c = a \<or> c = x")
    case True
    from u [OF n True] have a: "?a \<noteq> Null" and le: "cell_key c \<le> cell_key ?a"
      by simp_all
    from q [of ?a] a have "?R \<noteq> Null" and "cell_key ?a \<le> cell_key ?R"
      by simp_all
    with le show ?thesis by (meson order_trans)
  next
    case False
    with c have "c \<in> insert ?a (set xs)" by auto
    from q [OF this n] show ?thesis .
  qed
  show ?case
    using 1 2 by simp
qed

lemma col_max_mem: "col_max cs = Null \<or> col_max cs \<in> set cs"
  using fold_cell_max [of cs Null] by (simp add: col_max_def)

lemma col_max_ge:
  "c \<in> set cs \<Longrightarrow> c \<noteq> Null \<Longrightarrow> col_max cs \<noteq> Null \<and> cell_key c \<le> cell_key (col_max cs)"
  using fold_cell_max [of cs Null] by (simp add: col_max_def)

lemma col_max_not_gt: "c \<in> set cs \<Longrightarrow> \<not> cell_gt c (col_max cs)"
  using col_max_ge [of c cs] by (auto simp: cell_gt_def)

lemma latest_df_rows:
  assumes "x \<in> set (latest_df df)"
  shows "x \<in> set (rows df)" and "cell_of x ''date'' = latest_date df"
    and "cell_of x ''date'' \<noteq> Null"
    and "\<forall>y \<in> set (rows df). \<not> cell_gt (cell_of y ''date'') (cell_of x ''date'')"
proof -
  from assms show a: "x \<in> set (rows df)" and b: "cell_of x ''date'' = latest_date df"
    and "cell_of x ''date'' \<noteq> Null"
    by (auto simp: latest_df_def)
  show "\<forall>y \<in> set (rows df). \<not> cell_gt (cell_of y ''date'') (cell_of x ''date'')"
    unfolding b latest_date_def
    by (intro ballI col_max_not_gt) (simp add: column_cells_def)
qed


lemma sorted_desc_rev_sort:
  fixes k :: "'a \<Rightarrow> 'b::linorder"
  shows "sorted_wrt (\<lambda>a b. k b \<le> k a) (rev (sort_key k xs))"
proof -
  have "sorted_wrt (\<lambda>a b. k a \<le> k b) (sort_key k xs)"
    using sorted_sort_key [of k xs] by (simp add: sorted_map)
  then show ?thesis by (simp add: sorted_wrt_rev)
qed

lemma nlargest_sorted: "sorted_wrt cell_ge (map snd (nlargest n s))"
proof -
  let ?a = "rev (sort_key (\<lambda>p. cell_key (snd p)) (rev (filter (\<lambda>p. snd p \<noteq> Null) s)))"
  let ?b = "filter (\<lambda>p. snd p = Null) s"
  have s0: "sorted_wrt (\<lambda>p q. cell_key (snd q) \<le> cell_key (snd p)) ?a"
    by (rule sorted_desc_rev_sort)
  have nn: "\<forall>p \<in> set ?a. snd p \<noteq> Null" by simp
  have a: "sorted_wrt (\<lambda>p q. cell_ge (snd p) (snd q)) ?a"
  proof (rule sorted_wrt_mono_rel [OF _ s0])
    fix p q :: "cell \<times> cell"
    assume "p \<in> set ?a" and "cell_key (snd q) \<le> cell_key (snd p)"
    with nn show "cell_ge (snd p) (snd q)"
      unfolding cell_ge_def by blast
  qed
  have nb: "\<forall>q \<in> set ?b. snd q = Null" by simp
  have b: "sorted_wrt (\<lambda>p q. cell_ge (snd p) (snd q)) ?b"
  proof (rule sorted_wrt_mono_rel [of ?b "\<lambda>p q. True"])
    fix p q :: "cell \<times> cell"
    assume "q \<in> set ?b"
    with nb show "cell_ge (snd p) (snd q)"
      unfolding cell_ge_def by blast
  next
    show "sorted_wrt (\<lambda>p q. True) ?b" by (simp add: sorted_wrt_iff_nth_less)
  qed
  have c: "\<forall>p \<in> set ?a. \<forall>q \<in> set ?b. cell_ge (snd p) (snd q)"
    using nb unfolding cell_ge_def by blast
  have "sorted_wrt (\<lambda>p q. cell_ge (snd p) (snd q)) (?a @ ?b)"
    using a b c by (simp only: sorted_wrt_append simp_thms)
  then have "sorted_wrt (\<lambda>p q. cell_ge (snd p) (snd q)) (take n (?a @ ?b))"
    by (rule sorted_wrt_take)
  then show ?thesis
    by (simp only: nlargest_def sorted_wrt_map)
qed

lemma nlargest_length: "length (nlargest n s) = min n (length s)"
proof -
  let ?a = "rev (sort_key (\<lambda>p. cell_key (snd p)) (rev (filter (\<lambda>p. snd p \<noteq> Null) s)))"
  let ?b = "filter (\<lambda>p. snd p = Null) s"
  have "length (filter (\<lambda>p. snd p \<noteq> Null) s) + length (filter (\<lambda>p. \<not> snd p \<noteq> Null) s)
          = length s"
    by (rule sum_length_filter_compl)
  then have "length (?a @ ?b) = length s" by simp
  then have "length (take n (?a @ ?b)) = min n (length s)"
    by (simp only: length_take min.commute)
  then show ?thesis by (simp only: nlargest_def)
qed

lemma nlargest_subset: "set (nlargest n s) \<subseteq> set s"
proof -
  have "set (nlargest n s)
          \<subseteq> set (rev (sort_key (\<lambda>p. cell_key (snd p)) (rev (filter (\<lambda>p. snd p \<noteq> Null) s)))
                 @ filter (\<lambda>p. snd p = Null) s)"
    unfolding nlargest_def by (rule set_take_subset)
  then show ?thesis by auto
qed

lemma nlargest_distinct:
  assumes "distinct (map fst s)"
  shows "distinct (map fst (nlargest n s))"
proof -
  let ?a = "rev (sort_key (\<lambda>p. cell_key (snd p)) (rev (filter (\<lambda>p. snd p \<noteq> Null) s)))"
  let ?b = "filter (\<lambda>p. snd p = Null) s"
  from assms have d: "distinct s" and i: "inj_on fst (set s)"
    by (simp_all add: distinct_map)
  have "distinct (?a @ ?b)" using d by auto
  moreover have "set (?a @ ?b) \<subseteq> set s" by auto
  ultimately have "distinct (map fst (?a @ ?b))"
    using i by (simp only: distinct_map) (blast intro: inj_on_subset)
  then have "distinct (take n (map fst (?a @ ?b)))"
    by (rule distinct_take)
  then show ?thesis
    by (simp only: nlargest_def take_map)
qed


lemma group_keys_distinct: "distinct (group_keys g rs)"
  by (simp add: group_keys_def)

lemma group_keys_set: "set (group_keys g rs) = set (map (\<lambda>r. cell_of r g) rs) - {Null}"
  by (auto simp: group_keys_def)

lemma groupby_max_distinct: "distinct (map fst (groupby_max g m rs))"
  by (simp add: groupby_max_def comp_def group_keys_distinct)

lemma groupby_max_entry:
  assumes "(k, v) \<in> set (groupby_max g m rs)"
  shows "k \<noteq> Null" and "k \<in> set (map (\<lambda>r. cell_of r g) rs)"
    and "v = col_max (map (\<lambda>r. cell_of r m) (filter (\<lambda>r. cell_of r g = k) rs))"
  using assms group_keys_set [of g rs] by (auto simp: groupby_max_def)

lemma groupby_max_length:
  "length (groupby_max g m rs) = card (set (map (\<lambda>r. cell_of r g) rs) - {Null})"
  using distinct_card [OF group_keys_distinct, of g rs]
  by (simp add: groupby_max_def group_keys_set)

lemma cell_of_pair:
  "a \<noteq> b \<Longrightarrow> cell_of [(a, k), (b, v)] b = v" "cell_of [(a, k), (b, v)] a = k"
  by (simp_all add: cell_of_def)

lemma topNByMetric_eq:
  assumes "''date'' \<in> set (columns df)" and "''location'' \<in> set (columns df)"
    and "m \<in> set (columns df)" and "m \<noteq> ''location''"
    and "comparable (column_cells df ''date'')" and "numeric_cells (column_cells df m)"
  shows "topNByMetric df m n =
           Inr \<lparr>columns = [''location'', m],
                rows = map (\<lambda>(k, v). [(''location'', k), (m, v)])
                         (nlargest n (groupby_max ''location'' m (latest_df df)))\<rparr>"
  using assms by (simp add: topNByMetric_def nlargest_dtype_def)

lemma latest_df_set:
  "set (latest_df df) =
     {x \<in> set (rows df). cell_of x ''date'' \<noteq> Null
        \<and> (\<forall>y \<in> set (rows df). \<not> cell_gt (cell_of y ''date'') (cell_of x ''date''))}"
proof (intro equalityI subsetI)
  fix x assume "x \<in> set (latest_df df)"
  from latest_df_rows(1,3,4) [OF this]
  show "x \<in> {x \<in> set (rows df). cell_of x ''date'' \<noteq> Null
        \<and> (\<forall>y \<in> set (rows df). \<not> cell_gt (cell_of y ''date'') (cell_of x ''date''))}"
    by simp
next
  fix x
  assume "x \<in> {x \<in> set (rows df). cell_of x ''date'' \<noteq> Null
        \<and> (\<forall>y \<in> set (rows df). \<not> cell_gt (cell_of y ''date'') (cell_of x ''date''))}"
  then have x: "x \<in> set (rows df)" and n: "cell_of x ''date'' \<noteq> Null"
    and mx: "\<forall>y \<in> set (rows df). \<not> cell_gt (cell_of y ''date'') (cell_of x ''date'')"
    by simp_all
  let ?cs = "column_cells df ''date''"
  have xin: "cell_of x ''date'' \<in> set ?cs"
    using x by (simp add: column_cells_def)
  from col_max_ge [OF xin n]
  have mn: "col_max ?cs \<noteq> Null" and le: "cell_key (cell_of x ''date'') \<le> cell_key (col_max ?cs)"
    by simp_all
  from col_max_mem [of ?cs] mn have "col_max ?cs \<in> set ?cs" by simp
  then obtain y where y: "y \<in> set (rows df)" and ye: "cell_of y ''date'' = col_max ?cs"
    by (auto simp: column_cells_def)
  from mx y have "\<not> cell_gt (cell_of y ''date'') (cell_of x ''date'')" by blast
  with mn n ye have "cell_key (col_max ?cs) \<le> cell_key (cell_of x ''date'')"
    by (simp add: cell_gt_def not_less)
  with le have "cell_key (cell_of x ''date'') = cell_key (col_max ?cs)"
    by (rule antisym)
  then have "cell_of x ''date'' = latest_date df"
    by (simp add: cell_key_inj latest_date_def)
  with x n show "x \<in> set (latest_df df)"
    by (simp add: latest_df_def)
qed

lemma top_rows_columns:
  assumes "m \<noteq> ''location''"
  shows "map (\<lambda>r. cell_of r m) (map (\<lambda>(k, v). [(''location'', k), (m, v)]) L) = map snd L"
    and "map (\<lambda>r. cell_of r ''location'') (map (\<lambda>(k, v). [(''location'', k), (m, v)]) L) = map fst L"
  using assms by (induction L) (auto simp: cell_of_def)

lemma group_max_row:
  assumes "(k, v) \<in> set (nlargest n (groupby_max g m rs))"
  shows "k \<noteq> Null" and "k \<in> set (map (\<lambda>r. cell_of r g) rs)"
    and "v = col_max (map (\<lambda>x. cell_of x m) (filter (\<lambda>x. cell_of x g = k) rs))"
    and "\<forall>x \<in> set rs. cell_of x g = k \<longrightarrow> \<not> cell_gt (cell_of x m) v"
proof -
  from assms nlargest_subset have e: "(k, v) \<in> set (groupby_max g m rs)" by blast
  from groupby_max_entry [OF e]
  show "k \<noteq> Null" and "k \<in> set (map (\<lambda>r. cell_of r g) rs)"
    and v: "v = col_max (map (\<lambda>x. cell_of x m) (filter (\<lambda>x. cell_of x g = k) rs))"
    by simp_all
  show "\<forall>x \<in> set rs. cell_of x g = k \<longrightarrow> \<not> cell_gt (cell_of x m) v"
    unfolding v by (intro ballI impI col_max_not_gt) simp
qed

text \<open>
  C3. For every dataset with a \<open>location\<close> column, a \<open>date\<close> column and a numeric metric
  column, and every \<open>n\<close>, \<open>topNByMetric\<close> returns a table that has at most \<open>n\<close> rows
  (exactly \<open>n\<close>, or one per location when there are fewer), is in descending order of the
  metric (entries without a value last) and has no location twice. Every row of it is a
  location of the rows that carry the latest date with the largest metric among these
  rows, and the rows that carry the latest date are exactly the dated rows no other row
  is later than.
\<close>

theorem topNByMetric_top:
  assumes "''date'' \<in> set (columns df)" and "''location'' \<in> set (columns df)"
    and "m \<in> set (columns df)" and "m \<noteq> ''location''"
    and "comparable (column_cells df ''date'')" and "numeric_cells (column_cells df m)"
  shows "\<exists>out. topNByMetric df m n = Inr out
           \<and> length (rows out) \<le> n
           \<and> length (rows out) = min n (card (set (locations_of (latest_df df)) - {Null}))
           \<and> sorted_wrt cell_ge (column_cells out m)
           \<and> distinct (column_cells out ''location'')
           \<and> (\<forall>r \<in> set (rows out).
                 cell_of r ''location'' \<noteq> Null
                 \<and> cell_of r ''location'' \<in> set (locations_of (latest_df df))
                 \<and> cell_of r m =
                     col_max (map (\<lambda>x. cell_of x m)
                       (filter (\<lambda>x. cell_of x ''location'' = cell_of r ''location'')
                         (latest_df df)))
                 \<and> (\<forall>x \<in> set (latest_df df).
                       cell_of x ''location'' = cell_of r ''location'' \<longrightarrow>
                         \<not> cell_gt (cell_of x m) (cell_of r m)))
           \<and> set (latest_df df) =
               {x \<in> set (rows df). cell_of x ''date'' \<noteq> Null
                  \<and> (\<forall>y \<in> set (rows df). \<not> cell_gt (cell_of y ''date'') (cell_of x ''date''))}"
proof -
  let ?L = "nlargest n (groupby_max ''location'' m (latest_df df))"
  let ?out = "\<lparr>columns = [''location'', m],
               rows = map (\<lambda>(k, v). [(''location'', k), (m, v)]) ?L\<rparr>"
  have e: "topNByMetric df m n = Inr ?out"
    using assms by (rule topNByMetric_eq)
  have len: "length (rows ?out) = min n (card (set (locations_of (latest_df df)) - {Null}))"
    by (simp add: nlargest_length groupby_max_length locations_of_def)
  then have le: "length (rows ?out) \<le> n" by simp
  have cm: "column_cells ?out m = map snd ?L"
    and cl: "column_cells ?out ''location'' = map fst ?L"
    using top_rows_columns [OF assms(4), of ?L] by (simp_all add: column_cells_def)
  have srt: "sorted_wrt cell_ge (column_cells ?out m)"
    unfolding cm by (rule nlargest_sorted)
  have dst: "distinct (column_cells ?out ''location'')"
    unfolding cl by (rule nlargest_distinct) (rule groupby_max_distinct)
  have rws: "\<forall>r \<in> set (rows ?out).
                 cell_of r ''location'' \<noteq> Null
                 \<and> cell_of r ''location'' \<in> set (locations_of (latest_df df))
                 \<and> cell_of r m =
                     col_max (map (\<lambda>x. cell_of x m)
                       (filter (\<lambda>x. cell_of x ''location'' = cell_of r ''location'')
                         (latest_df df)))
                 \<and> (\<forall>x \<in> set (latest_df df).
                       cell_of x ''location'' = cell_of r ''location'' \<longrightarrow>
                         \<not> cell_gt (cell_of x m) (cell_of r m))"
  proof
    fix r assume "r \<in> set (rows ?out)"
    then obtain k v where kv: "(k, v) \<in> set ?L" and r: "r = [(''location'', k), (m, v)]"
      by auto
    have rl: "cell_of r ''location'' = k" and rm: "cell_of r m = v"
      using assms(4) unfolding r by (simp_all add: cell_of_def)
    from group_max_row [OF kv] show
      "cell_of r ''location'' \<noteq> Null
       \<and> cell_of r ''location'' \<in> set (locations_of (latest_df df))
       \<and> cell_of r m =
           col_max (map (\<lambda>x. cell_of x m)
             (filter (\<lambda>x. cell_of x ''location'' = cell_of r ''location'') (latest_df df)))
       \<and> (\<forall>x \<in> set (latest_df df).
             cell_of x ''location'' = cell_of r ''location'' \<longrightarrow>
               \<not> cell_gt (cell_of x m) (cell_of r m))"
      unfolding rl rm locations_of_def by blast
  qed
  show ?thesis
    using e le len srt dst rws latest_df_set [of df] by blast
qed

theorem topNByMetric_top_witness:
  "''date'' \<in> set (columns top_df) \<and> ''location'' \<in> set (columns top_df)
   \<and> ''total_cases'' \<in> set (columns top_df) \<and> ''total_cases'' \<noteq> ''location''
   \<and> comparable (column_cells top_df ''date'')
   \<and> numeric_cells (column_cells top_df ''total_cases'')
   \<and> topNByMetric top_df ''total_cases'' 2 =
       Inr \<lparr>columns = [''location'', ''total_cases''],
            rows = [[(''location'', Str ''B''), (''total_cases'', Num 50)],
                    [(''location'', Str ''D''), (''total_cases'', Num 50)]]\<rparr>
   \<and> sorted_wrt cell_ge [Num 50, Num 50]"
proof -
  have a: "''date'' \<in> set (columns top_df)" and b: "''location'' \<in> set (columns top_df)"
    and c: "''total_cases'' \<in> set (columns top_df)"
    by (simp_all add: top_df_def)
  have d: "''total_cases'' \<noteq> ''location''" by simp
  have cols: "column_cells top_df ''date'' =
                [Time 1, Time 2, Time 2, Time 2, Time 2, Time 2, Null, Time 2]"
    "column_cells top_df ''total_cases'' =
                [Num 100, Num 20, Num 50, Null, Num 30, Num 50, Num 500, Num 900]"
    by (simp_all add: top_df_def column_cells_def cell_of_def mk_row_def)
  have f: "comparable (column_cells top_df ''date'')"
    unfolding cols by (simp add: comparable_def kind_def)
  have g: "numeric_cells (column_cells top_df ''total_cases'')"
    unfolding cols by (simp add: numeric_cells_def)
  have ld: "latest_df top_df =
              [mk_row ''A'' (Time 2) 20, mk_row ''B'' (Time 2) 50,
               [(''location'', Str ''C''), (''date'', Time 2), (''total_cases'', Null)],
               mk_row ''A'' (Time 2) 30, mk_row ''D'' (Time 2) 50,
               [(''location'', Null), (''date'', Time 2), (''total_cases'', Num 900)]]"
    unfolding latest_df_def latest_date_def cols
    by (simp add: col_max_def cell_max_def top_df_def cell_of_def mk_row_def)
  have gm: "groupby_max ''location'' ''total_cases'' (latest_df top_df) =
              [(Str ''A'', Num 30), (Str ''B'', Num 50), (Str ''C'', Null), (Str ''D'', Num 50)]"
    unfolding ld
    by (simp add: groupby_max_def group_keys_def col_max_def cell_max_def cell_of_def mk_row_def)
  have e: "topNByMetric top_df ''total_cases'' 2 =
       Inr \<lparr>columns = [''location'', ''total_cases''],
            rows = [[(''location'', Str ''B''), (''total_cases'', Num 50)],
                    [(''location'', Str ''D''), (''total_cases'', Num 50)]]\<rparr>"
    unfolding topNByMetric_eq [OF a b c d f g] gm
    by (simp add: nlargest_def)
  from topNByMetric_top [OF a b c d f g, of 2] e
  have "sorted_wrt cell_ge
          (column_cells \<lparr>columns = [''location'', ''total_cases''],
            rows = [[(''location'', Str ''B''), (''total_cases'', Num 50)],
                    [(''location'', Str ''D''), (''total_cases'', Num 50)]]\<rparr> ''total_cases'')"
    by auto
  then have "sorted_wrt cell_ge [Num 50, Num 50]"
    by (simp add: column_cells_def cell_of_def)
  with a b c d f g e show ?thesis by blast
qed

section \<open>Properties of loading\<close>

lemma to_datetime_Null: "to_datetime parse Null = Null"
  by (simp add: to_datetime_def)

lemma to_datetime_idem: "to_datetime parse (to_datetime parse c) = to_datetime parse c"
  by (cases c) (simp_all add: to_datetime_def split: option.splits)

lemma to_datetime_unparseable:
  "\<forall>t. c \<noteq> Time t \<Longrightarrow> parse c = None \<Longrightarrow> to_datetime parse c = Null"
  by (cases c) (simp_all add: to_datetime_def)

lemma set_cell_keys: "map fst (set_cell c f r) = map fst r"
  by (induction r) (auto simp: set_cell_def)

lemma cell_of_set_cell_other: "c' \<noteq> c \<Longrightarrow> cell_of (set_cell c f r) c' = cell_of r c'"
  by (induction r) (auto simp: set_cell_def cell_of_def)

lemma cell_of_set_cell_same: "f Null = Null \<Longrightarrow> cell_of (set_cell c f r) c = f (cell_of r c)"
  by (induction r) (auto simp: set_cell_def cell_of_def)

lemma set_cell_idem: "(\<And>v. f (f v) = f v) \<Longrightarrow> set_cell c f (set_cell c f r) = set_cell c f r"
  by (induction r) (auto simp: set_cell_def)

lemma coerce_dates_idem: "coerce_dates parse (coerce_dates parse t) = coerce_dates parse t"
  by (simp add: coerce_dates_def set_cell_idem to_datetime_idem comp_def)

lemma reload_df: "reload (Some (Inr t)) s = Some s' \<Longrightarrow> v_df s' = t"
  by (auto simp: reload_def)

text \<open>
  C7. For every table that has a column named \<open>date\<close>, read from a local file or from an
  upload, loading returns a table (it does not fail), with the same columns and the same
  number of rows; every row keeps its column names, the \<open>date\<close> column among them; every
  cell of another column is unchanged; and a date cell the parser cannot read becomes
  missing.
\<close>

theorem load_data_coerces_dates:
  assumes "''date'' \<in> set (columns t)"
    and "src = LocalFile (Inr t) \<or> src = Upload (Some (Inr t))"
  shows "\<exists>out. load_data parse src = Ready out
           \<and> columns out = columns t
           \<and> length (rows out) = length (rows t)
           \<and> (\<forall>i < length (rows t).
                 map fst (rows out ! i) = map fst (rows t ! i)
                 \<and> (\<forall>c. c \<noteq> ''date'' \<longrightarrow> cell_of (rows out ! i) c = cell_of (rows t ! i) c)
                 \<and> cell_of (rows out ! i) ''date''
                     = to_datetime parse (cell_of (rows t ! i) ''date'')
                 \<and> ((\<forall>ts. cell_of (rows t ! i) ''date'' \<noteq> Time ts)
                      \<and> parse (cell_of (rows t ! i) ''date'') = None
                      \<longrightarrow> cell_of (rows out ! i) ''date'' = Null))"
proof -
  let ?out = "coerce_dates parse t"
  have l: "load_data parse src = Ready ?out"
    using assms(2) by auto
  have r: "rows ?out = map (set_cell ''date'' (to_datetime parse)) (rows t)"
    and c: "columns ?out = columns t"
    using assms(1) by (simp_all add: coerce_dates_def)
  have n: "length (rows ?out) = length (rows t)"
    by (simp add: r)
  have p: "\<forall>i < length (rows t).
             map fst (rows ?out ! i) = map fst (rows t ! i)
             \<and> (\<forall>c. c \<noteq> ''date'' \<longrightarrow> cell_of (rows ?out ! i) c = cell_of (rows t ! i) c)
             \<and> cell_of (rows ?out ! i) ''date''
                 = to_datetime parse (cell_of (rows t ! i) ''date'')
             \<and> ((\<forall>ts. cell_of (rows t ! i) ''date'' \<noteq> Time ts)
                  \<and> parse (cell_of (rows t ! i) ''date'') = None
                  \<longrightarrow> cell_of (rows ?out ! i) ''date'' = Null)"
  proof (intro allI impI)
    fix i assume i: "i < length (rows t)"
    then have e: "rows ?out ! i = set_cell ''date'' (to_datetime parse) (rows t ! i)"
      by (simp add: r)
    have s: "cell_of (rows ?out ! i) ''date'' = to_datetime parse (cell_of (rows t ! i) ''date'')"
      unfolding e by (rule cell_of_set_cell_same) (rule to_datetime_Null)
    show "map fst (rows ?out ! i) = map fst (rows t ! i)
             \<and> (\<forall>c. c \<noteq> ''date'' \<longrightarrow> cell_of (rows ?out ! i) c = cell_of (rows t ! i) c)
             \<and> cell_of (rows ?out ! i) ''date''
                 = to_datetime parse (cell_of (rows t ! i) ''date'')
             \<and> ((\<forall>ts. cell_of (rows t ! i) ''date'' \<noteq> Time ts)
                  \<and> parse (cell_of (rows t ! i) ''date'') = None
                  \<longrightarrow> cell_of (rows ?out ! i) ''date'' = Null)"
      using s by (simp add: e set_cell_keys cell_of_set_cell_other to_datetime_unparseable)
  qed
  show ?thesis
    using l c n p by blast
qed

theorem load_data_coerces_dates_witness:
  "''date'' \<in> set (columns raw_df)
   \<and> load_data parse_iso (LocalFile (Inr raw_df)) =
       Ready (raw_df\<lparr>rows :=
         [[(''location'', Str ''A''), (''date'', Time 0)],
          [(''location'', Str ''B''), (''date'', Null)],
          [(''location'', Str ''C''), (''date'', Null)]]\<rparr>)
   \<and> parse_iso (Str ''not a date'') = None
   \<and> cell_of [(''location'', Str ''B''), (''date'', Null)] ''location'' = Str ''B''"
proof -
  have a: "''date'' \<in> set (columns raw_df)"
    by (simp add: raw_df_def)
  have b: "LocalFile (Inr raw_df) = LocalFile (Inr raw_df)
           \<or> LocalFile (Inr raw_df) = Upload (Some (Inr raw_df))"
    by simp
  have e: "load_data parse_iso (LocalFile (Inr raw_df)) =
       Ready (raw_df\<lparr>rows :=
         [[(''location'', Str ''A''), (''date'', Time 0)],
          [(''location'', Str ''B''), (''date'', Null)],
          [(''location'', Str ''C''), (''date'', Null)]]\<rparr>)"
    by (simp add: coerce_dates_def raw_df_def set_cell_def to_datetime_def parse_iso_def)
  have r1: "rows raw_df ! 1 = [(''location'', Str ''B''), (''date'', Str ''not a date'')]"
    and n: "(1::nat) < length (rows raw_df)"
    by (simp_all add: raw_df_def)
  let ?o = "raw_df\<lparr>rows :=
         [[(''location'', Str ''A''), (''date'', Time 0)],
          [(''location'', Str ''B''), (''date'', Null)],
          [(''location'', Str ''C''), (''date'', Null)]]\<rparr>"
  from load_data_coerces_dates [OF a b, of parse_iso]
  obtain out where o: "load_data parse_iso (LocalFile (Inr raw_df)) = Ready out"
    and k: "\<forall>i < length (rows raw_df).
              \<forall>c. c \<noteq> ''date'' \<longrightarrow> cell_of (rows out ! i) c = cell_of (rows raw_df ! i) c"
    by blast
  from o e have oe: "out = ?o" by simp
  have ne: "''location'' \<noteq> ''date''" by simp
  from k [rule_format, OF n ne]
  have "cell_of (rows ?o ! 1) ''location'' = cell_of (rows raw_df ! 1) ''location''"
    unfolding oe .
  then have "cell_of [(''location'', Str ''B''), (''date'', Null)] ''location'' = Str ''B''"
    by (simp add: r1 cell_of_def)
  moreover have "parse_iso (Str ''not a date'') = None"
    by (simp add: parse_iso_def)
  ultimately show ?thesis using a e by (intro conjI)
qed

section \<open>Properties of the script's dataset variable\<close>

lemma exec_filter_unsorted:
  "exec no_parse argsort_stable (Filter [''A''] None) (start unsorted_df) =
     Inr ((start unsorted_df)
            \<lparr>v_df := unsorted_df\<lparr>rows := [mk_row ''A'' (Time 2) 20, mk_row ''A'' (Time 1) 10]\<rparr>,
             v_date_col := Some ''date''\<rparr>)"
proof -
  have c: "comparable [Time 2, Time 1]"
    by (simp add: comparable_def kind_def)
  have f: "filterBySelection unsorted_df (Some ''date'') [''A''] None =
             Inr (unsorted_df\<lparr>rows := [mk_row ''A'' (Time 2) 20, mk_row ''A'' (Time 1) 10]\<rparr>)"
    using c
    by (simp add: filterBySelection_def unsorted_df_def isin_def cell_of_def mk_row_def
        column_cells_def)
  have d: "''date'' \<in> set (columns unsorted_df)"
    by (simp add: unsorted_df_def)
  show ?thesis
    using d f by (simp add: start_def)
qed

text \<open>
  C8, as the code has it. The sidebar filter assigns its result to \<open>df\<close>: after it the
  dataset variable holds the filtered table, not the loaded one. Here the loaded table has
  three rows and \<open>df\<close> has two after the filter for location \<open>A\<close>.
\<close>

theorem exec_filter_changes_df_counterexample:
  "exec no_parse argsort_stable (Filter [''A''] None) (start unsorted_df) =
     Inr ((start unsorted_df)
            \<lparr>v_df := unsorted_df\<lparr>rows := [mk_row ''A'' (Time 2) 20, mk_row ''A'' (Time 1) 10]\<rparr>,
             v_date_col := Some ''date''\<rparr>)
   \<and> v_df ((start unsorted_df)
            \<lparr>v_df := unsorted_df\<lparr>rows := [mk_row ''A'' (Time 2) 20, mk_row ''A'' (Time 1) 10]\<rparr>,
             v_date_col := Some ''date''\<rparr>) \<noteq> v_df (start unsorted_df)"
proof -
  have "unsorted_df\<lparr>rows := [mk_row ''A'' (Time 2) 20, mk_row ''A'' (Time 1) 10]\<rparr> \<noteq> unsorted_df"
    by (simp add: unsorted_df_def)
  then show ?thesis
    using exec_filter_unsorted by (simp add: start_def)
qed

lemma filterBySelection_rows:
  assumes "filterBySelection t dc locations date_range = Inr out"
  shows "columns out = columns t"
    and "subseq (rows out) (rows t)"
    and "\<forall>r \<in> set (rows out). isin (cell_of r ''location'') locations"
proof -
  let ?t1 = "t\<lparr>rows := filter (\<lambda>r. isin (cell_of r ''location'') locations) (rows t)\<rparr>"
  from assms have
    "out = ?t1 \<or> (\<exists>d a b. out = ?t1\<lparr>rows := filter (\<lambda>r. in_range a b (cell_of r d)) (rows ?t1)\<rparr>)"
    by (auto simp: filterBySelection_def Let_def split: if_splits option.splits prod.splits)
  then show "columns out = columns t" and "subseq (rows out) (rows t)"
    and "\<forall>r \<in> set (rows out). isin (cell_of r ''location'') locations"
    by (auto intro: subseq_order.order_trans [OF subseq_filter_left subseq_filter_left])
qed

text \<open>
  C8, amended. An operation of the script that returns leaves the dataset variable \<open>df\<close>
  as it was when the operation is the country slice, the top-10 table, the summary
  statistics or the map table, and also when it is the second date coercion on a dataset
  that loading has coerced already. The sidebar filter replaces \<open>df\<close> by a selection of
  its rows: the columns are the same, the rows are a subsequence of the former rows, all
  of a chosen location, and \<open>df\<close> differs from what it was as soon as a row has a location
  that is not chosen.
\<close>

theorem exec_dataset:
  assumes "exec parse argsort opr s = Inr s'"
  shows "((\<forall>locations date_range. opr \<noteq> Filter locations date_range)
            \<and> (opr = EnsureDates \<longrightarrow> (\<exists>t. v_df s = coerce_dates parse t))
          \<longrightarrow> v_df s' = v_df s)
       \<and> (\<forall>locations date_range. opr = Filter locations date_range \<longrightarrow>
             columns (v_df s') = columns (v_df s)
             \<and> subseq (rows (v_df s')) (rows (v_df s))
             \<and> (\<forall>r \<in> set (rows (v_df s')). isin (cell_of r ''location'') locations)
             \<and> ((\<exists>r \<in> set (rows (v_df s)). \<not> isin (cell_of r ''location'') locations)
                  \<longrightarrow> v_df s' \<noteq> v_df s))"
proof (cases opr)
  case (Slice country)
  with assms show ?thesis by (auto split: sum.splits)
next
  case TopTen
  with assms show ?thesis by (auto split: sum.splits)
next
  case Describe
  with assms show ?thesis by (auto split: option.splits)
next
  case EnsureDates
  with assms have "v_df s' = coerce_dates parse (v_df s)" by auto
  with EnsureDates show ?thesis by (auto simp: coerce_dates_idem)
next
  case (Filter locations date_range)
  let ?dc = "if ''date'' \<in> set (columns (v_df s)) then Some ''date'' else None"
  from assms Filter have f: "filterBySelection (v_df s) ?dc locations date_range = Inr (v_df s')"
    by (auto simp: Let_def split: sum.splits)
  note p = filterBySelection_rows [OF f]
  have "v_df s' \<noteq> v_df s"
    if "\<exists>r \<in> set (rows (v_df s)). \<not> isin (cell_of r ''location'') locations"
    using that p(3) by metis
  with p Filter show ?thesis by simp
next
  case LatestMap
  with assms show ?thesis by (auto split: sum.splits)
qed

theorem exec_dataset_witness:
  "exec no_parse argsort_stable (Slice ''B'') (start unsorted_df) =
     Inr ((start unsorted_df)\<lparr>v_country_df := Some (unsorted_df\<lparr>rows := [mk_row ''B'' (Time 1) 5]\<rparr>)\<rparr>)
   \<and> v_df ((start unsorted_df)\<lparr>v_country_df := Some (unsorted_df\<lparr>rows := [mk_row ''B'' (Time 1) 5]\<rparr>)\<rparr>)
       = v_df (start unsorted_df)
   \<and> exec no_parse argsort_stable (Filter [''A''] None) (start unsorted_df) =
       Inr ((start unsorted_df)
            \<lparr>v_df := unsorted_df\<lparr>rows := [mk_row ''A'' (Time 2) 20, mk_row ''A'' (Time 1) 10]\<rparr>,
             v_date_col := Some ''date''\<rparr>)
   \<and> subseq [mk_row ''A'' (Time 2) 20, mk_row ''A'' (Time 1) 10] (rows unsorted_df)"
proof -
  have e: "exec no_parse argsort_stable (Slice ''B'') (start unsorted_df) =
     Inr ((start unsorted_df)\<lparr>v_country_df := Some (unsorted_df\<lparr>rows := [mk_row ''B'' (Time 1) 5]\<rparr>)\<rparr>)"
    by (simp add: start_def sliceByLocation_def unsorted_df_def cell_of_def mk_row_def)
  have n: "(\<forall>locations date_range. Slice ''B'' \<noteq> Filter locations date_range)
            \<and> (Slice ''B'' = EnsureDates \<longrightarrow> (\<exists>t. v_df (start unsorted_df) = coerce_dates no_parse t))"
    by simp
  from exec_dataset [OF e] n
  have 1: "v_df ((start unsorted_df)\<lparr>v_country_df := Some (unsorted_df\<lparr>rows := [mk_row ''B'' (Time 1) 5]\<rparr>)\<rparr>)
       = v_df (start unsorted_df)"
    by blast
  from exec_dataset [OF exec_filter_unsorted]
  have "subseq (rows (v_df ((start unsorted_df)
            \<lparr>v_df := unsorted_df\<lparr>rows := [mk_row ''A'' (Time 2) 20, mk_row ''A'' (Time 1) 10]\<rparr>,
             v_date_col := Some ''date''\<rparr>))) (rows (v_df (start unsorted_df)))"
    by blast
  then have 2: "subseq [mk_row ''A'' (Time 2) 20, mk_row ''A'' (Time 1) 10] (rows unsorted_df)"
    by (simp add: start_def)
  show ?thesis
    using e 1 exec_filter_unsorted 2 by (intro conjI)
qed

section \<open>Properties of the diagnostic script\<close>








lemma prints_one:
  "prints ok [l] [] = (if ok 0 l then ([l], None) else ([], Some OSError))"
  by simp









end
